theory Spec2Isabelle
  imports Main "HOL-Library.Sublist" "HOL-Library.AList"
begin

section \<open>Course catalogue extraction (extract.py)\<close>

text \<open>
  A shallow embedding of \<^verbatim>\<open>extract.py\<close>: the line classifier (the four compiled
  regular expressions and the marker tests), the field extractors
  (\<^verbatim>\<open>hanging_course_name\<close>, \<^verbatim>\<open>get_course_code\<close>, \<^verbatim>\<open>get_course_name\<close>,
  \<^verbatim>\<open>get_course_unit\<close>, \<^verbatim>\<open>get_course_desc\<close>, \<^verbatim>\<open>get_course_pre\<close>) and the function
  \<^verbatim>\<open>extract\<close>, given the lines it has read from the document (the variable
  \<^verbatim>\<open>text\<close>): its log, the files it writes and the dictionary it returns.

  A Python \<^verbatim>\<open>str\<close> is modelled as a \<open>string\<close>; a character is identified with its
  code point (\<open>of_char\<close>). The lines \<^verbatim>\<open>extract\<close> works on have been filtered to the
  printable ASCII characters, so nothing beyond code point 126 reaches the functions below.
\<close>

subsection \<open>Character classes\<close>

definition is_upper :: "char \<Rightarrow> bool" where
  \<comment> \<open>the class \<^verbatim>\<open>[A-Z]\<close>\<close>
  "is_upper c \<longleftrightarrow> (65::nat) \<le> of_char c \<and> (of_char c :: nat) \<le> 90"

definition is_digit :: "char \<Rightarrow> bool" where
  \<comment> \<open>the class \<^verbatim>\<open>\d\<close> (and \<^verbatim>\<open>[0-9]\<close>) on code points below 256\<close>
  "is_digit c \<longleftrightarrow> (48::nat) \<le> of_char c \<and> (of_char c :: nat) \<le> 57"

definition is_space :: "char \<Rightarrow> bool" where
  \<comment> \<open>the class \<^verbatim>\<open>\s\<close>, and the characters \<^verbatim>\<open>str.strip()\<close> removes: tab, newline,
     vertical tab, form feed, carriage return, the separators 28 to 31, the space, and
     the code points 133 and 160\<close>
  "is_space c \<longleftrightarrow>
     ((9::nat) \<le> of_char c \<and> (of_char c :: nat) \<le> 13)
   \<or> ((28::nat) \<le> of_char c \<and> (of_char c :: nat) \<le> 32)
   \<or> (of_char c :: nat) = 133 \<or> (of_char c :: nat) = 160"

definition is_title_char :: "char \<Rightarrow> bool" where
  \<comment> \<open>the class \<^verbatim>\<open>[0-9A-Z\s\-\(\)&\+\?,:]\<close>\<close>
  "is_title_char c \<longleftrightarrow>
     is_digit c \<or> is_upper c \<or> is_space c \<or> c \<in> set ''-()&+?,:''"

subsection \<open>String operations of Python\<close>

fun contains_str :: "string \<Rightarrow> string \<Rightarrow> bool" where
  \<comment> \<open>\<^verbatim>\<open>sub in s\<close>\<close>
  "contains_str sub [] = (sub = [])"
| "contains_str sub (c # cs) = (prefix sub (c # cs) \<or> contains_str sub cs)"

definition strip :: "string \<Rightarrow> string" where
  \<comment> \<open>\<^verbatim>\<open>s.strip()\<close>\<close>
  "strip s = rev (dropWhile is_space (rev (dropWhile is_space s)))"

fun replace_ne :: "string \<Rightarrow> string \<Rightarrow> string \<Rightarrow> string" where
  \<comment> \<open>\<^verbatim>\<open>s.replace(old, new)\<close> for a non-empty \<^verbatim>\<open>old\<close>: every occurrence, found from
     left to right without overlap\<close>
  "replace_ne old new [] = []"
| "replace_ne old new (c # cs) =
     (if old \<noteq> [] \<and> prefix old (c # cs)
      then new @ replace_ne old new (drop (length old - 1) cs)
      else c # replace_ne old new cs)"

fun replace_empty :: "string \<Rightarrow> string \<Rightarrow> string" where
  \<comment> \<open>\<^verbatim>\<open>s.replace('', new)\<close>: \<^verbatim>\<open>new\<close> before every character and at the end\<close>
  "replace_empty new [] = new"
| "replace_empty new (c # cs) = new @ c # replace_empty new cs"

definition replace :: "string \<Rightarrow> string \<Rightarrow> string \<Rightarrow> string" where
  "replace old new s = (if old = [] then replace_empty new s else replace_ne old new s)"

fun split_chr :: "char \<Rightarrow> string \<Rightarrow> string list" where
  \<comment> \<open>\<^verbatim>\<open>s.split(sep)\<close> for a separator of one character\<close>
  "split_chr sep [] = [[]]"
| "split_chr sep (c # cs) =
     (if c = sep then [] # split_chr sep cs
      else (case split_chr sep cs of
              [] \<Rightarrow> [[c]]
            | p # ps \<Rightarrow> (c # p) # ps))"

fun join :: "string \<Rightarrow> string list \<Rightarrow> string" where
  \<comment> \<open>\<^verbatim>\<open>sep.join(parts)\<close>\<close>
  "join sep [] = []"
| "join sep [x] = x"
| "join sep (x # y # ys) = x @ sep @ join sep (y # ys)"

subsection \<open>The compiled patterns\<close>

definition code_with :: "nat \<Rightarrow> string \<Rightarrow> string option" where
  \<comment> \<open>\<^verbatim>\<open>[A-Z]{k}\d{4}\<close> at the start of \<open>s\<close>: the text matched\<close>
  "code_with k s =
     (if k + 4 \<le> length s \<and> list_all is_upper (take k s)
         \<and> list_all is_digit (take 4 (drop k s))
      then Some (take (k + 4) s) else None)"

definition COURSE_CODE_match :: "string \<Rightarrow> string option" where
  \<comment> \<open>\<^verbatim>\<open>COURSE_CODE_PATTERN.match(s)\<close>, pattern \<^verbatim>\<open>([A-Z]{2,4}\d{4})\<close>: group 1 of a
     match at the start of \<open>s\<close>. The greedy quantifier tries four letters, then three,
     then two.\<close>
  "COURSE_CODE_match s =
     (case code_with 4 s of Some g \<Rightarrow> Some g
      | None \<Rightarrow> (case code_with 3 s of Some g \<Rightarrow> Some g
        | None \<Rightarrow> code_with 2 s))"

fun COURSE_CODE_search :: "string \<Rightarrow> string option" where
  \<comment> \<open>\<^verbatim>\<open>COURSE_CODE_PATTERN.search(s)\<close>: group 1 of the leftmost match\<close>
  "COURSE_CODE_search [] = COURSE_CODE_match []"
| "COURSE_CODE_search (c # cs) =
     (case COURSE_CODE_match (c # cs) of Some g \<Rightarrow> Some g
      | None \<Rightarrow> COURSE_CODE_search cs)"

definition name_with :: "nat \<Rightarrow> string \<Rightarrow> (string \<times> string) option" where
  \<comment> \<open>\<^verbatim>\<open>^([A-Z]{k}\d{4}) ([0-9A-Z\s\-\(\)&\+\?,:]*)$\<close> on the whole of \<open>s\<close>: groups 1
     and 2. The class of group 2 holds the newline, so \<^verbatim>\<open>$\<close> before a final newline
     adds no match.\<close>
  "name_with k s =
     (case code_with k s of None \<Rightarrow> None
      | Some g \<Rightarrow>
         (case drop (k + 4) s of [] \<Rightarrow> None
          | c # rest \<Rightarrow>
             if c = CHR '' '' \<and> list_all is_title_char rest
             then Some (g, rest) else None))"

definition COURSE_NAME_match :: "string \<Rightarrow> (string \<times> string) option" where
  \<comment> \<open>\<^verbatim>\<open>COURSE_NAME_PATTERN.match(s)\<close>: groups 1 and 2\<close>
  "COURSE_NAME_match s =
     (case name_with 4 s of Some g \<Rightarrow> Some g
      | None \<Rightarrow> (case name_with 3 s of Some g \<Rightarrow> Some g
        | None \<Rightarrow> name_with 2 s))"

definition UNIT_match :: "string \<Rightarrow> bool" where
  \<comment> \<open>\<^verbatim>\<open>UNIT_PATTERN.match(s)\<close>, pattern \<^verbatim>\<open>\(\d{1}\s*(unit|UNIT).*\)\<close>, anchored at
     the start only; \<^verbatim>\<open>.\<close> matches every character but the newline\<close>
  "UNIT_match s =
     (case s of
        c0 # c1 # rest \<Rightarrow>
          c0 = CHR ''('' \<and> is_digit c1 \<and>
          (let r = dropWhile is_space rest in
             (prefix ''unit'' r \<or> prefix ''UNIT'' r) \<and>
             CHR '')'' \<in> set (takeWhile (\<lambda>c. c \<noteq> CHR 0x0A) (drop 4 r)))
      | _ \<Rightarrow> False)"

definition PAGE_NUMBER_match :: "string \<Rightarrow> bool" where
  \<comment> \<open>\<^verbatim>\<open>PAGE_NUMBER_PATTERN.match(s)\<close>, pattern \<^verbatim>\<open>\d+ / \d+\<close>, anchored at the start
     only\<close>
  "PAGE_NUMBER_match s =
     (let r = dropWhile is_digit s in
        takeWhile is_digit s \<noteq> [] \<and> prefix '' / '' r \<and>
        (case drop 3 r of [] \<Rightarrow> False | c # _ \<Rightarrow> is_digit c))"

definition description_markers :: "string list" where
  "description_markers =
     [''Course Description:'', ''Course  Description'', ''Description:'',
      ''Course Description'']"

definition is_description_marker :: "string \<Rightarrow> bool" where
  \<comment> \<open>\<^verbatim>\<open>any(marker in line for marker in description_markers)\<close>\<close>
  "is_description_marker line = list_ex (\<lambda>marker. contains_str marker line) description_markers"

definition prereq_marker :: string where
  "prereq_marker = ''Pre-requisite(s):''"

subsection \<open>Field extractors\<close>

fun hanging_loop :: "string list \<Rightarrow> string list \<Rightarrow> string list" where
  \<comment> \<open>the loop of \<^verbatim>\<open>hanging_course_name\<close>, from the buffer built so far\<close>
  "hanging_loop buffer [] = buffer"
| "hanging_loop buffer (line # rest) =
     (if contains_str ''('' line then buffer
      else hanging_loop (if line \<noteq> [] then buffer @ [line] else buffer) rest)"

definition hanging_course_name :: "string list \<Rightarrow> string list" where
  "hanging_course_name course_raw = hanging_loop [] course_raw"

definition get_course_code :: "string \<Rightarrow> string option" where
  "get_course_code course_name = COURSE_CODE_search course_name"

definition get_course_name :: "string \<Rightarrow> string list \<Rightarrow> string" where
  "get_course_name course_name course_raw =
     (case get_course_code course_name of
        None \<Rightarrow> strip course_name
      | Some course_code \<Rightarrow>
          if course_code = [] then strip course_name
          else
            (let raw_course_name = replace course_code [] course_name;
                 hanging = hanging_course_name course_raw
             in strip (join '' '' (strip raw_course_name # hanging))))"

fun get_course_unit :: "string list \<Rightarrow> string option" where
  "get_course_unit [] = None"
| "get_course_unit (line # rest) =
     (let stripped_line = strip line in
        if UNIT_match stripped_line then Some (take 1 (drop 1 stripped_line))
        else get_course_unit rest)"

fun desc_loop :: "bool \<Rightarrow> string list \<Rightarrow> string list \<Rightarrow> string list" where
  \<comment> \<open>the loop of \<^verbatim>\<open>get_course_desc\<close>, from \<^verbatim>\<open>found_description\<close> and the buffer\<close>
  "desc_loop found_description buffer [] = buffer"
| "desc_loop found_description buffer (line # rest) =
     (let found = (found_description \<or> is_description_marker line) in
        desc_loop found (if found then buffer @ [line] else buffer) rest)"

definition get_course_desc :: "string list \<Rightarrow> string list" where
  "get_course_desc course_raw = desc_loop False [] course_raw"

fun pre_loop :: "bool \<Rightarrow> string list \<Rightarrow> string list \<Rightarrow> string" where
  \<comment> \<open>the loop of \<^verbatim>\<open>get_course_pre\<close>, from \<^verbatim>\<open>found_prereq\<close> and the buffer\<close>
  "pre_loop found_prereq buffer [] = concat buffer"
| "pre_loop found_prereq buffer (line # rest) =
     (let found = (found_prereq \<or> contains_str prereq_marker line) in
        if is_description_marker line then concat buffer
        else pre_loop found
               (if found
                then (if contains_str prereq_marker line
                      then buffer @ [replace prereq_marker [] line]
                      else buffer @ [line])
                else buffer)
               rest)"

definition get_course_pre :: "string list \<Rightarrow> string" where
  "get_course_pre course_raw = pre_loop False [] course_raw"

subsection \<open>The segmenter: the main loop of extract\<close>

record seg_state =
  cn_list :: "string list"
  cd_list :: "string list list"
  new_flag :: nat
  temp_c_list :: "string list"

definition seg_init :: seg_state where
  \<comment> \<open>the assignments before the loop\<close>
  "seg_init = \<lparr>cn_list = [], cd_list = [], new_flag = 0, temp_c_list = []\<rparr>"

definition seg_step :: "seg_state \<Rightarrow> string \<Rightarrow> seg_state" where
  \<comment> \<open>one iteration of \<^verbatim>\<open>for k, line in enumerate(text)\<close>\<close>
  "seg_step s line =
     (if COURSE_NAME_match line \<noteq> None then
        (if new_flag s = 1 then s\<lparr>temp_c_list := temp_c_list s @ [line]\<rparr>
         else
           (let s1 = (if cn_list s \<noteq> []
                      then s\<lparr>cd_list := cd_list s @ [temp_c_list s], temp_c_list := []\<rparr>
                      else s)
            in s1\<lparr>new_flag := 1, cn_list := cn_list s1 @ [line]\<rparr>))
      else if is_description_marker line then
        s\<lparr>new_flag := 0, temp_c_list := temp_c_list s @ [line]\<rparr>
      else s\<lparr>temp_c_list := temp_c_list s @ [line]\<rparr>)"

definition seg_loop :: "seg_state \<Rightarrow> string list \<Rightarrow> seg_state" where
  "seg_loop s text = foldl seg_step s text"

definition segmenter :: "string list \<Rightarrow> seg_state" where
  \<comment> \<open>the loop and the final \<^verbatim>\<open>cd_list.append(temp_c_list)\<close>\<close>
  "segmenter text =
     (let s = seg_loop seg_init text in s\<lparr>cd_list := cd_list s @ [temp_c_list s]\<rparr>)"

subsection \<open>The records and the files\<close>

record payload =
  course_code :: string
  course_name :: string
  unit :: "string option"
  prerequisite :: string
  description :: "string list"

type_synonym course_dict = "(string \<times> payload) list"

text \<open>
  A log record is its level and an event; an event stands for one message of the
  function, with the numbers and the line the message prints (the file names the
  messages print are left out). The files are modelled by their contents: the lines of
  the raw lines file, the rows handed to the writers of the two other files (a writer
  writes \<^verbatim>\<open>None\<close> as the empty string). A write that fails raises \<^verbatim>\<open>IOError\<close>:
  nothing is returned, and the model keeps no content for the file.
\<close>

datatype level = INFO | WARNING | ERROR

datatype event =
    LoadingPDF
  | LinesOfText nat
  | DoneWritingRaw
  | FoundCodes nat
  | FoundNames nat nat
  | CouldNotExtract string
  | SavingRecords
  | ErrorRecords
  | SavingDescriptions
  | ErrorDescriptions
  | DoneExiting

datatype error = IOError

record filesystem =
  raw_fails :: bool
  records_fails :: bool
  description_fails :: bool

record result =
  log :: "(level \<times> event) list"
  raw_lines_txt :: "string list option"
  records_tsv :: "string list list option"
  description_tsv :: "string list list option"
  ret :: "error + course_dict"

definition count_codes :: "string list \<Rightarrow> nat" where
  \<comment> \<open>\<^verbatim>\<open>len(cc_dict.keys())\<close> after the counting loop\<close>
  "count_codes text =
     length (remdups (List.map_filter
       (\<lambda>line. if COURSE_CODE_match line \<noteq> None then COURSE_CODE_search line else None)
       text))"

fun build_dict ::
  "course_dict \<times> (level \<times> event) list \<Rightarrow> (string \<times> string list) list
     \<Rightarrow> course_dict \<times> (level \<times> event) list" where
  \<comment> \<open>the loop \<^verbatim>\<open>for n, r in zip(cn_list, cd_list)\<close>: the dictionary and the warnings\<close>
  "build_dict (d, lg) [] = (d, lg)"
| "build_dict (d, lg) ((n, r) # rest) =
     (case get_course_code n of
        None \<Rightarrow> build_dict (d, lg @ [(WARNING, CouldNotExtract n)]) rest
      | Some cc \<Rightarrow>
          if cc = [] then build_dict (d, lg @ [(WARNING, CouldNotExtract n)]) rest
          else build_dict
                 (AList.update cc
                    \<lparr>course_code = cc,
                     course_name = get_course_name n r,
                     unit = get_course_unit r,
                     prerequisite = get_course_pre r,
                     description = get_course_desc r\<rparr> d, lg)
                 rest)"

definition tsv_prerequisite :: "string \<Rightarrow> string" where
  \<comment> \<open>\<^verbatim>\<open>temp_prerequisite\<close> as written to the records file\<close>
  "tsv_prerequisite p =
     (let temp_prerequisite = (if p \<noteq> [] then strip p else ''N/A'') in
        if contains_str ''None'' temp_prerequisite
           \<or> contains_str ''None Course'' temp_prerequisite
        then ''N/A'' else temp_prerequisite)"

definition records_row :: "payload \<Rightarrow> string list" where
  \<comment> \<open>the row of one record; the writer writes \<^verbatim>\<open>None\<close> as the empty string\<close>
  "records_row v =
     [course_code v, course_name v, tsv_prerequisite (prerequisite v),
      (case unit v of None \<Rightarrow> [] | Some u \<Rightarrow> u)]"

definition records_rows :: "course_dict \<Rightarrow> string list list" where
  "records_rows d =
     [''course_code'', ''course_name'', ''prerequisite'', ''unit'']
       # map (\<lambda>(k, v). records_row v) d"

definition tsv_description :: "string list \<Rightarrow> string" where
  \<comment> \<open>\<^verbatim>\<open>temp\<close> of the clean-up loop over \<^verbatim>\<open>code_desc_dict\<close>\<close>
  "tsv_description v =
     (let tv = filter (\<lambda>line. \<not> PAGE_NUMBER_match (strip line)) v in
        strip (concat (tl (split_chr CHR '':'' (concat tv)))))"

definition description_rows :: "course_dict \<Rightarrow> string list list" where
  "description_rows d =
     [''course_code'', ''course_description'']
       # map (\<lambda>(k, v). [k, tsv_description (description v)]) d"

definition extract_lines :: "filesystem \<Rightarrow> bool \<Rightarrow> string list \<Rightarrow> result" where
  \<comment> \<open>the function \<^verbatim>\<open>extract\<close>, once the document is read: \<open>text\<close> is the value of
     the variable \<^verbatim>\<open>text\<close>, the lines of the document; \<open>fs\<close> says which writes raise
     \<^verbatim>\<open>IOError\<close>\<close>
  "extract_lines fs save_tsv text =
     (let lga = [(INFO, LoadingPDF), (INFO, LinesOfText (length text))] in
      if raw_fails fs then
        \<lparr>log = lga, raw_lines_txt = None, records_tsv = None, description_tsv = None,
         ret = Inl IOError\<rparr>
      else
       (let lg0 = lga @ [(INFO, DoneWritingRaw), (INFO, FoundCodes (count_codes text))];
            s = segmenter text;
            lg1 = lg0 @ [(INFO, FoundNames (length (cn_list s)) (length (cd_list s)))];
            (course_dict, lg2) = build_dict ([], lg1) (zip (cn_list s) (cd_list s))
        in
          if \<not> save_tsv then
            \<lparr>log = lg2, raw_lines_txt = Some text, records_tsv = None,
             description_tsv = None, ret = Inr course_dict\<rparr>
          else if records_fails fs then
            \<lparr>log = lg2 @ [(INFO, SavingRecords), (ERROR, ErrorRecords)],
             raw_lines_txt = Some text, records_tsv = None, description_tsv = None,
             ret = Inl IOError\<rparr>
          else if description_fails fs then
            \<lparr>log = lg2 @ [(INFO, SavingRecords), (INFO, SavingDescriptions),
                          (ERROR, ErrorDescriptions)],
             raw_lines_txt = Some text,
             records_tsv = Some (records_rows course_dict),
             description_tsv = None, ret = Inl IOError\<rparr>
          else
            \<lparr>log = lg2 @ [(INFO, SavingRecords), (INFO, SavingDescriptions),
                          (INFO, DoneExiting)],
             raw_lines_txt = Some text,
             records_tsv = Some (records_rows course_dict),
             description_tsv = Some (description_rows course_dict),
             ret = Inr course_dict\<rparr>))"

subsection \<open>Notions used in the statements and the proofs\<close>

definition is_course_name_line :: "string \<Rightarrow> bool" where
  \<comment> \<open>the test \<^verbatim>\<open>if COURSE_NAME_PATTERN.match(line)\<close>\<close>
  "is_course_name_line line \<longleftrightarrow> COURSE_NAME_match line \<noteq> None"

definition fs_ok :: filesystem where
  \<comment> \<open>every file can be written\<close>
  "fs_ok = \<lparr>raw_fails = False, records_fails = False, description_fails = False\<rparr>"

definition seg_inv :: "string list \<Rightarrow> seg_state \<Rightarrow> bool" where
  \<comment> \<open>what holds of the loop state once the lines \<open>seen\<close> have been read\<close>
  "seg_inv seen s \<longleftrightarrow>
     (if cn_list s = [] then cd_list s = [] \<and> new_flag s = 0 \<and> temp_c_list s = seen
      else length (cd_list s) + 1 = length (cn_list s))"

definition pending :: "string list \<Rightarrow> bool" where
  \<comment> \<open>going back from the end of the lines \<open>seen\<close>, a line matching the course-name
     pattern comes before any description marker\<close>
  "pending seen \<longleftrightarrow>
     list_ex is_course_name_line
       (takeWhile (\<lambda>l. \<not> is_description_marker l) (rev seen))"

definition genuine_headers :: "string list \<Rightarrow> string list" where
  \<comment> \<open>Follows the words of the specification, to be compared with the names the
     segmenter records. The genuine headers of a document: its lines that match the
     course-name pattern and are not cross-references, that is, with no earlier line
     matching the pattern still waiting for its description marker.\<close>
  "genuine_headers ls =
     map (\<lambda>i. ls ! i)
       (filter (\<lambda>i. is_course_name_line (ls ! i) \<and> \<not> pending (take i ls))
          [0..<length ls])"

fun remove_matched :: "string \<Rightarrow> string \<Rightarrow> string" where
  \<comment> \<open>Follows the words of the specification, to be compared with \<^verbatim>\<open>str.replace\<close>:
     the matched code removed from the name line, that is, its leftmost occurrence,
     the one the search matches.\<close>
  "remove_matched old [] = []"
| "remove_matched old (c # cs) =
     (if old \<noteq> [] \<and> prefix old (c # cs) then drop (length old - 1) cs
      else c # remove_matched old cs)"

section \<open>Properties\<close>

subsection \<open>The loop of the segmenter\<close>

lemma seg_loop_Nil: "seg_loop s [] = s"
  by (simp add: seg_loop_def)

lemma seg_loop_Cons: "seg_loop s (l # ls) = seg_loop (seg_step s l) ls"
  by (simp add: seg_loop_def)

lemma seg_loop_append: "seg_loop s (xs @ ys) = seg_loop (seg_loop s xs) ys"
  by (simp add: seg_loop_def)

lemma seg_loop_snoc: "seg_loop s (xs @ [x]) = seg_step (seg_loop s xs) x"
  by (simp add: seg_loop_def)

lemma seg_step_name_open:
  "is_course_name_line l \<Longrightarrow> new_flag s = 1 \<Longrightarrow>
     seg_step s l = s\<lparr>temp_c_list := temp_c_list s @ [l]\<rparr>"
  by (simp add: seg_step_def is_course_name_line_def)

lemma seg_step_name_closed:
  "is_course_name_line l \<Longrightarrow> new_flag s \<noteq> 1 \<Longrightarrow>
     seg_step s l =
       (if cn_list s \<noteq> []
        then s\<lparr>cd_list := cd_list s @ [temp_c_list s], temp_c_list := [],
               new_flag := 1, cn_list := cn_list s @ [l]\<rparr>
        else s\<lparr>new_flag := 1, cn_list := [l]\<rparr>)"
  by (simp add: seg_step_def is_course_name_line_def Let_def)

lemma seg_step_marker:
  "\<not> is_course_name_line l \<Longrightarrow> is_description_marker l \<Longrightarrow>
     seg_step s l = s\<lparr>new_flag := 0, temp_c_list := temp_c_list s @ [l]\<rparr>"
  by (simp add: seg_step_def is_course_name_line_def)

lemma seg_step_other:
  "\<not> is_course_name_line l \<Longrightarrow> \<not> is_description_marker l \<Longrightarrow>
     seg_step s l = s\<lparr>temp_c_list := temp_c_list s @ [l]\<rparr>"
  by (simp add: seg_step_def is_course_name_line_def)

lemma seg_loop_open:
  "new_flag s = 1 \<Longrightarrow> \<forall>l\<in>set ls. \<not> is_description_marker l \<Longrightarrow>
     seg_loop s ls = s\<lparr>temp_c_list := temp_c_list s @ ls\<rparr>"
proof (induction ls arbitrary: s)
  case Nil
  then show ?case by (simp add: seg_loop_Nil)
next
  case (Cons l ls)
  have st: "seg_step s l = s\<lparr>temp_c_list := temp_c_list s @ [l]\<rparr>"
  proof (cases "is_course_name_line l")
    case True
    then show ?thesis using Cons.prems(1) by (rule seg_step_name_open)
  next
    case False
    then show ?thesis using Cons.prems(2) by (simp add: seg_step_other)
  qed
  have "seg_loop s (l # ls) = seg_loop (s\<lparr>temp_c_list := temp_c_list s @ [l]\<rparr>) ls"
    by (simp add: seg_loop_Cons st)
  also have "\<dots> = s\<lparr>temp_c_list := temp_c_list s @ [l]\<rparr>\<lparr>temp_c_list :=
      temp_c_list (s\<lparr>temp_c_list := temp_c_list s @ [l]\<rparr>) @ ls\<rparr>"
    using Cons.prems by (intro Cons.IH) simp_all
  finally show ?case by simp
qed

lemma seg_loop_no_names:
  "\<forall>l\<in>set ls. \<not> is_course_name_line l \<Longrightarrow>
     seg_loop s ls =
       s\<lparr>temp_c_list := temp_c_list s @ ls,
         new_flag := (if list_ex is_description_marker ls then 0 else new_flag s)\<rparr>"
proof (induction ls arbitrary: s)
  case Nil
  then show ?case by (simp add: seg_loop_Nil)
next
  case (Cons l ls)
  show ?case
  proof (cases "is_description_marker l")
    case True
    with Cons.prems
    have "seg_step s l = s\<lparr>new_flag := 0, temp_c_list := temp_c_list s @ [l]\<rparr>"
      by (simp add: seg_step_marker)
    with Cons True show ?thesis by (simp add: seg_loop_Cons)
  next
    case False
    with Cons.prems have "seg_step s l = s\<lparr>temp_c_list := temp_c_list s @ [l]\<rparr>"
      by (simp add: seg_step_other)
    with Cons False show ?thesis by (simp add: seg_loop_Cons)
  qed
qed

lemma seg_inv_step: "seg_inv seen s \<Longrightarrow> seg_inv (seen @ [l]) (seg_step s l)"
  by (auto simp add: seg_inv_def seg_step_def Let_def split: if_splits)

lemma seg_inv_loop: "seg_inv ls (seg_loop seg_init ls)"
proof (induction ls rule: rev_induct)
  case Nil
  show ?case by (simp add: seg_loop_Nil seg_inv_def seg_init_def)
next
  case (snoc l ls)
  then show ?case by (simp add: seg_loop_snoc seg_inv_step)
qed

lemma seg_loop_extends:
  "cn_list s \<noteq> [] \<Longrightarrow>
     \<exists>r segs ns. cd_list (seg_loop s ls) @ [temp_c_list (seg_loop s ls)]
                   = cd_list s @ (temp_c_list s @ r) # segs
                 \<and> cn_list (seg_loop s ls) = cn_list s @ ns"
proof (induction ls arbitrary: s)
  case Nil
  then show ?case by (simp add: seg_loop_Nil)
next
  case (Cons l ls)
  let ?s1 = "seg_step s l"
  have keep_or_flush:
    "(cd_list ?s1 = cd_list s \<and> temp_c_list ?s1 = temp_c_list s @ [l] \<and> cn_list ?s1 = cn_list s)
     \<or> (cd_list ?s1 = cd_list s @ [temp_c_list s] \<and> temp_c_list ?s1 = []
         \<and> cn_list ?s1 = cn_list s @ [l])"
    using Cons.prems by (auto simp add: seg_step_def Let_def)
  then have ne: "cn_list ?s1 \<noteq> []" using Cons.prems by auto
  from Cons.IH [OF ne] obtain r segs ns where
    ih: "cd_list (seg_loop ?s1 ls) @ [temp_c_list (seg_loop ?s1 ls)]
           = cd_list ?s1 @ (temp_c_list ?s1 @ r) # segs"
        "cn_list (seg_loop ?s1 ls) = cn_list ?s1 @ ns"
    by blast
  from keep_or_flush show ?case
  proof
    assume a: "cd_list ?s1 = cd_list s \<and> temp_c_list ?s1 = temp_c_list s @ [l]
               \<and> cn_list ?s1 = cn_list s"
    with ih have "cd_list (seg_loop s (l # ls)) @ [temp_c_list (seg_loop s (l # ls))]
                   = cd_list s @ (temp_c_list s @ (l # r)) # segs
                 \<and> cn_list (seg_loop s (l # ls)) = cn_list s @ ns"
      by (simp add: seg_loop_Cons)
    then show ?thesis by blast
  next
    assume a: "cd_list ?s1 = cd_list s @ [temp_c_list s] \<and> temp_c_list ?s1 = []
               \<and> cn_list ?s1 = cn_list s @ [l]"
    with ih have "cd_list (seg_loop s (l # ls)) @ [temp_c_list (seg_loop s (l # ls))]
                   = cd_list s @ (temp_c_list s @ []) # (r # segs)
                 \<and> cn_list (seg_loop s (l # ls)) = cn_list s @ (l # ns)"
      by (simp add: seg_loop_Cons)
    then show ?thesis by blast
  qed
qed

lemma seg_loop_first_header:
  assumes h: "is_course_name_line h"
    and pre: "\<forall>l\<in>set pre. \<not> is_course_name_line l"
  shows "seg_loop seg_init (pre @ [h])
           = \<lparr>cn_list = [h], cd_list = [], new_flag = 1, temp_c_list = pre\<rparr>"
proof -
  have "seg_loop seg_init pre
          = seg_init\<lparr>temp_c_list := temp_c_list seg_init @ pre,
              new_flag := (if list_ex is_description_marker pre then 0 else new_flag seg_init)\<rparr>"
    using pre by (rule seg_loop_no_names)
  then have p: "seg_loop seg_init pre
          = \<lparr>cn_list = [], cd_list = [], new_flag = 0, temp_c_list = pre\<rparr>"
    by (simp add: seg_init_def)
  show ?thesis
    by (simp add: seg_loop_snoc p seg_step_name_closed [OF h])
qed

lemma seg_loop_cross_reference:
  assumes h: "is_course_name_line h" and x: "is_course_name_line x"
    and pre: "\<forall>l\<in>set pre. \<not> is_course_name_line l"
    and mid: "\<forall>l\<in>set mid. \<not> is_description_marker l"
  shows "seg_loop seg_init (pre @ h # mid @ [x])
           = \<lparr>cn_list = [h], cd_list = [], new_flag = 1, temp_c_list = pre @ mid @ [x]\<rparr>"
proof -
  let ?s1 = "\<lparr>cn_list = [h], cd_list = [], new_flag = 1, temp_c_list = pre\<rparr>"
  have a: "seg_loop seg_init (pre @ [h]) = ?s1"
    using h pre by (rule seg_loop_first_header)
  have b: "seg_loop ?s1 mid = ?s1\<lparr>temp_c_list := temp_c_list ?s1 @ mid\<rparr>"
    using mid by (intro seg_loop_open) simp_all
  have eq: "pre @ h # mid @ [x] = ((pre @ [h]) @ mid) @ [x]" by simp
  have "seg_loop seg_init (pre @ h # mid @ [x])
               = seg_step (seg_loop (seg_loop seg_init (pre @ [h])) mid) x"
    unfolding eq
    by (simp only: seg_loop_snoc [of seg_init "(pre @ [h]) @ mid" x]
          seg_loop_append [of seg_init "pre @ [h]" mid])
  also have "\<dots> = seg_step (?s1\<lparr>temp_c_list := temp_c_list ?s1 @ mid\<rparr>) x"
    by (simp only: a b)
  also have "\<dots> = \<lparr>cn_list = [h], cd_list = [], new_flag = 1, temp_c_list = pre @ mid @ [x]\<rparr>"
    by (simp add: seg_step_name_open [OF x])
  finally show ?thesis .
qed

subsection \<open>Course-name lines and description markers\<close>

lemma contains_str_set: "contains_str sub s \<Longrightarrow> set sub \<subseteq> set s"
proof (induction s)
  case Nil
  then show ?case by simp
next
  case (Cons c cs)
  then show ?case using set_mono_prefix [of sub "c # cs"] by auto
qed

lemma marker_has_e: "is_description_marker l \<Longrightarrow> CHR ''e'' \<in> set l"
  by (auto simp add: is_description_marker_def description_markers_def
        dest!: contains_str_set)

lemma code_with_chars:
  "code_with k s = Some g \<Longrightarrow> \<forall>c\<in>set g. is_upper c \<or> is_digit c"
proof -
  assume a: "code_with k s = Some g"
  then have g: "g = take k s @ take 4 (drop k s)"
    by (auto simp add: code_with_def take_add split: if_splits)
  from a have "list_all is_upper (take k s)" "list_all is_digit (take 4 (drop k s))"
    by (auto simp add: code_with_def split: if_splits)
  with g show ?thesis by (auto simp add: list_all_iff)
qed

lemma code_with_take: "code_with k s = Some g \<Longrightarrow> g = take (k + 4) s \<and> length g = k + 4"
  by (auto simp add: code_with_def split: if_splits)

lemma name_with_chars:
  assumes "name_with k s = Some (g, r)"
  shows "\<forall>c\<in>set s. is_upper c \<or> is_digit c \<or> c = CHR '' '' \<or> is_title_char c"
proof -
  from assms obtain c where
    cw: "code_with k s = Some g" and d: "drop (k + 4) s = c # r"
    and sp: "c = CHR '' ''" and t: "list_all is_title_char r"
    by (auto simp add: name_with_def split: option.splits list.splits if_splits)
  have "s = take (k + 4) s @ drop (k + 4) s" by simp
  with cw d sp have s: "s = g @ CHR '' '' # r"
    using code_with_take [OF cw] by simp
  show ?thesis
    using code_with_chars [OF cw] t by (subst s, subst (asm) list_all_iff) auto
qed

lemma e_not_title:
  "\<not> (is_upper (CHR ''e'') \<or> is_digit (CHR ''e'') \<or> CHR ''e'' = CHR '' ''
       \<or> is_title_char (CHR ''e''))"
  by (simp add: is_upper_def is_digit_def is_title_char_def is_space_def)

lemma name_not_marker: "is_course_name_line l \<Longrightarrow> \<not> is_description_marker l"
proof
  assume n: "is_course_name_line l" and m: "is_description_marker l"
  from n obtain k g r where "name_with k l = Some (g, r)"
    by (auto simp add: is_course_name_line_def COURSE_NAME_match_def split: option.splits)
  from name_with_chars [OF this] marker_has_e [OF m] e_not_title
  show False by blast
qed

lemma pending_snoc:
  "pending (ls @ [l]) =
     (if is_description_marker l then False else is_course_name_line l \<or> pending ls)"
  by (simp add: pending_def)

lemma genuine_headers_snoc:
  "genuine_headers (ls @ [l]) =
     genuine_headers ls @ (if is_course_name_line l \<and> \<not> pending ls then [l] else [])"
proof -
  let ?P = "\<lambda>i. is_course_name_line ((ls @ [l]) ! i) \<and> \<not> pending (take i (ls @ [l]))"
  let ?Q = "\<lambda>i. is_course_name_line (ls ! i) \<and> \<not> pending (take i ls)"
  let ?n = "length ls"
  have old: "filter ?P [0..<?n] = filter ?Q [0..<?n]"
    by (rule filter_cong) (simp_all add: nth_append)
  have m: "map (\<lambda>i. (ls @ [l]) ! i) (filter ?Q [0..<?n]) = map (\<lambda>i. ls ! i) (filter ?Q [0..<?n])"
    by (rule map_cong) (auto simp add: nth_append)
  have last: "map (\<lambda>i. (ls @ [l]) ! i) (filter ?P [?n])
                = (if is_course_name_line l \<and> \<not> pending ls then [l] else [])"
    by simp
  have "genuine_headers (ls @ [l])
          = map (\<lambda>i. (ls @ [l]) ! i) (filter ?P ([0..<?n] @ [?n]))"
    by (simp add: genuine_headers_def)
  also have "\<dots> = map (\<lambda>i. (ls @ [l]) ! i) (filter ?P [0..<?n])
                   @ map (\<lambda>i. (ls @ [l]) ! i) (filter ?P [?n])"
    by (simp only: filter_append map_append)
  also have "\<dots> = map (\<lambda>i. ls ! i) (filter ?Q [0..<?n])
                   @ (if is_course_name_line l \<and> \<not> pending ls then [l] else [])"
    by (simp only: old m last)
  finally show ?thesis by (simp add: genuine_headers_def)
qed

lemma seg_loop_flag_names:
  "cn_list (seg_loop seg_init ls) = genuine_headers ls
   \<and> new_flag (seg_loop seg_init ls) = (if pending ls then 1 else 0)"
proof (induction ls rule: rev_induct)
  case Nil
  show ?case
    by (simp add: seg_loop_Nil seg_init_def genuine_headers_def pending_def)
next
  case (snoc l ls)
  let ?s = "seg_loop seg_init ls"
  show ?case
  proof (cases "is_course_name_line l")
    case True
    then have nm: "\<not> is_description_marker l" by (rule name_not_marker)
    show ?thesis
    proof (cases "pending ls")
      case p: True
      with snoc have "new_flag ?s = 1" by simp
      with True snoc p nm show ?thesis
        by (simp add: seg_loop_snoc seg_step_name_open pending_snoc genuine_headers_snoc)
    next
      case p: False
      with snoc have "new_flag ?s \<noteq> 1" by simp
      with True snoc p nm show ?thesis
        by (simp add: seg_loop_snoc seg_step_name_closed pending_snoc genuine_headers_snoc)
    qed
  next
    case False
    show ?thesis
    proof (cases "is_description_marker l")
      case True
      with False snoc show ?thesis
        by (simp add: seg_loop_snoc seg_step_marker pending_snoc genuine_headers_snoc)
    next
      case m: False
      with False snoc show ?thesis
        by (simp add: seg_loop_snoc seg_step_other pending_snoc genuine_headers_snoc)
    qed
  qed
qed

subsection \<open>The course code of a course-name line\<close>

lemma upper_not_digit: "is_upper c \<Longrightarrow> \<not> is_digit c"
  by (simp add: is_upper_def is_digit_def)

lemma code_with_upper: "code_with k s = Some g \<Longrightarrow> i < k \<Longrightarrow> is_upper (s ! i)"
  by (auto simp add: code_with_def list_all_length split: if_splits)

lemma code_with_digit: "code_with k s = Some g \<Longrightarrow> is_digit (s ! k)"
proof -
  assume a: "code_with k s = Some g"
  then have "list_all is_digit (take 4 (drop k s))" and "k + 4 \<le> length s"
    by (auto simp add: code_with_def split: if_splits)
  then have "\<forall>n<4. is_digit (s ! (k + n))"
    by (simp add: list_all_length)
  then have "(0::nat) < 4 \<longrightarrow> is_digit (s ! (k + 0))" by (rule spec)
  then show ?thesis by simp
qed

lemma code_with_unique:
  assumes "code_with j s = Some a" and "code_with k s = Some b"
  shows "j = k"
proof (rule ccontr)
  assume "j \<noteq> k"
  then consider "j < k" | "k < j" by linarith
  then show False
  proof cases
    case 1
    from code_with_upper [OF assms(2) 1] code_with_digit [OF assms(1)]
    show False by (simp add: upper_not_digit)
  next
    case 2
    from code_with_upper [OF assms(1) 2] code_with_digit [OF assms(2)]
    show False by (simp add: upper_not_digit)
  qed
qed

lemma code_match_of_with:
  assumes "code_with k s = Some g" and "k = 4 \<or> k = 3 \<or> k = 2"
  shows "COURSE_CODE_match s = Some g"
proof -
  have "code_with j s = None" if "j \<noteq> k" for j
    using code_with_unique [OF _ assms(1), of j] that by (cases "code_with j s") auto
  with assms show ?thesis
    by (auto simp add: COURSE_CODE_match_def split: option.splits)
qed

lemma search_of_match: "COURSE_CODE_match s = Some g \<Longrightarrow> COURSE_CODE_search s = Some g"
  by (cases s) simp_all

lemma name_match_with:
  "COURSE_NAME_match l = Some (g, t) \<Longrightarrow>
     \<exists>k. (k = 4 \<or> k = 3 \<or> k = 2) \<and> name_with k l = Some (g, t)"
  by (auto simp add: COURSE_NAME_match_def split: option.splits)

lemma name_with_code: "name_with k l = Some (g, t) \<Longrightarrow> code_with k l = Some g"
  by (auto simp add: name_with_def split: option.splits list.splits if_splits)

lemma name_line_code:
  assumes "COURSE_NAME_match l = Some (g, t)"
  shows "COURSE_CODE_search l = Some g \<and> g \<noteq> []"
proof -
  from name_match_with [OF assms] obtain k where
    k: "k = 4 \<or> k = 3 \<or> k = 2" and n: "name_with k l = Some (g, t)" by blast
  from name_with_code [OF n] have c: "code_with k l = Some g" .
  from code_match_of_with [OF c k] have "COURSE_CODE_search l = Some g"
    by (rule search_of_match)
  moreover from code_with_take [OF c] have "g \<noteq> []" by auto
  ultimately show ?thesis by simp
qed

subsection \<open>The log\<close>

lemma genuine_headers_names: "l \<in> set (genuine_headers ls) \<Longrightarrow> is_course_name_line l"
  by (auto simp add: genuine_headers_def)

lemma build_dict_quiet:
  "\<forall>n\<in>set (map fst zs). is_course_name_line n \<Longrightarrow> snd (build_dict (d, lg) zs) = lg"
proof (induction zs arbitrary: d)
  case Nil
  then show ?case by simp
next
  case (Cons z zs)
  obtain n r where z: "z = (n, r)" by (cases z)
  with Cons.prems have "is_course_name_line n" by simp
  then obtain g t where "COURSE_NAME_match n = Some (g, t)"
    by (auto simp add: is_course_name_line_def)
  from name_line_code [OF this] have "get_course_code n = Some g" "g \<noteq> []"
    by (simp_all add: get_course_code_def)
  with Cons z show ?case by simp
qed

lemma segmenter_names: "cn_list (segmenter ls) = genuine_headers ls"
  using seg_loop_flag_names [of ls] by (simp add: segmenter_def Let_def)

lemma extract_lines_log:
  "WARNING \<notin> fst ` set (log (extract_lines fs save_tsv ls))
   \<and> (\<not> raw_fails fs \<longrightarrow>
        (INFO, FoundNames (length (cn_list (segmenter ls))) (length (cd_list (segmenter ls))))
          \<in> set (log (extract_lines fs save_tsv ls)))"
proof -
  let ?s = "segmenter ls"
  let ?lg1 = "[(INFO, LoadingPDF), (INFO, LinesOfText (length ls)), (INFO, DoneWritingRaw),
      (INFO, FoundCodes (count_codes ls)),
      (INFO, FoundNames (length (cn_list ?s)) (length (cd_list ?s)))]"
  let ?zs = "zip (cn_list ?s) (cd_list ?s)"
  have "\<forall>n\<in>set (map fst ?zs). is_course_name_line n"
    by (auto simp add: segmenter_names dest!: set_zip_leftD genuine_headers_names)
  then have q: "snd (build_dict ([], ?lg1) ?zs) = ?lg1" by (rule build_dict_quiet)
  obtain d lg2 where b: "build_dict ([], ?lg1) ?zs = (d, lg2)"
    by (cases "build_dict ([], ?lg1) ?zs")
  with q have lg2: "lg2 = ?lg1" by simp
  show ?thesis
    by (simp add: extract_lines_def Let_def b lg2)
qed

subsection \<open>Hanging lines\<close>






subsection \<open>The values written to the files\<close>

lemma split_chr_nonempty: "split_chr c s \<noteq> []"
  by (induction s) (auto split: list.splits)

lemma concat_split_chr: "concat (split_chr c s) = filter (\<lambda>x. x \<noteq> c) s"
  by (induction s) (auto split: list.splits simp add: split_chr_nonempty)

lemma concat_tl_split_chr:
  "concat (tl (split_chr c s)) = filter (\<lambda>x. x \<noteq> c) (drop 1 (dropWhile (\<lambda>x. x \<noteq> c) s))"
proof (induction s)
  case Nil
  show ?case by simp
next
  case (Cons x xs)
  show ?case
  proof (cases "x = c")
    case True
    then show ?thesis by (simp add: concat_split_chr)
  next
    case False
    obtain p ps where s: "split_chr c xs = p # ps"
      using split_chr_nonempty [of c xs] by (cases "split_chr c xs") auto
    with False Cons show ?thesis by simp
  qed
qed

lemma tsv_description_all_colons:
  "tsv_description v =
     strip (filter (\<lambda>x. x \<noteq> CHR '':'')
       (drop 1 (dropWhile (\<lambda>x. x \<noteq> CHR '':'')
          (concat (filter (\<lambda>line. \<not> PAGE_NUMBER_match (strip line)) v)))))"
  by (simp add: tsv_description_def Let_def concat_tl_split_chr)

lemma tsv_prerequisite_blank:
  "p \<noteq> [] \<Longrightarrow> strip p = [] \<Longrightarrow> tsv_prerequisite p = []"
  by (simp add: tsv_prerequisite_def Let_def)


lemma remove_matched_absent: "\<not> contains_str old s \<Longrightarrow> remove_matched old s = s"
  by (induction s) auto





subsection \<open>Scenario A\<close>

text \<open>
  Claim C1, as the code has it. The four lines of Scenario A give exactly one record,
  keyed \<^verbatim>\<open>ACCT1013\<close>, with code \<^verbatim>\<open>ACCT1013\<close>, name \<^verbatim>\<open>PRINCIPLES OF ACCOUNTING\<close>
  and unit \<^verbatim>\<open>3\<close>. In the dictionary returned, the prerequisite of the record is the
  text extracted, \<^verbatim>\<open> None\<close> with its leading space, and the description is the list
  holding the raw description line. Called without \<^verbatim>\<open>save_tsv\<close>, the function writes no
  records file and no description file. Called with \<^verbatim>\<open>save_tsv\<close>, it returns the same
  dictionary, and the values \<^verbatim>\<open>N/A\<close> and \<^verbatim>\<open>This course covers basics.\<close> are the
  prerequisite cell of the row of the records file and the cell of the row of the
  description file.
\<close>

theorem scenario_A_record:
  "extract_lines fs_ok False
     [''ACCT1013 PRINCIPLES OF ACCOUNTING'', ''(3 units)'', ''Pre-requisite(s): None'',
      ''Course Description: This course covers basics.'']
   = \<lparr>log = [(INFO, LoadingPDF), (INFO, LinesOfText 4), (INFO, DoneWritingRaw),
             (INFO, FoundCodes 1), (INFO, FoundNames 1 1)],
      raw_lines_txt =
        Some [''ACCT1013 PRINCIPLES OF ACCOUNTING'', ''(3 units)'',
              ''Pre-requisite(s): None'',
              ''Course Description: This course covers basics.''],
      records_tsv = None,
      description_tsv = None,
      ret = Inr [(''ACCT1013'',
                  \<lparr>course_code = ''ACCT1013'',
                   course_name = ''PRINCIPLES OF ACCOUNTING'',
                   unit = Some ''3'', prerequisite = '' None'',
                   description = [''Course Description: This course covers basics.'']\<rparr>)]\<rparr>
   \<and> extract_lines fs_ok True
     [''ACCT1013 PRINCIPLES OF ACCOUNTING'', ''(3 units)'', ''Pre-requisite(s): None'',
      ''Course Description: This course covers basics.'']
   = \<lparr>log = [(INFO, LoadingPDF), (INFO, LinesOfText 4), (INFO, DoneWritingRaw),
             (INFO, FoundCodes 1), (INFO, FoundNames 1 1), (INFO, SavingRecords),
             (INFO, SavingDescriptions), (INFO, DoneExiting)],
      raw_lines_txt =
        Some [''ACCT1013 PRINCIPLES OF ACCOUNTING'', ''(3 units)'',
              ''Pre-requisite(s): None'',
              ''Course Description: This course covers basics.''],
      records_tsv =
        Some [[''course_code'', ''course_name'', ''prerequisite'', ''unit''],
              [''ACCT1013'', ''PRINCIPLES OF ACCOUNTING'', ''N/A'', ''3'']],
      description_tsv =
        Some [[''course_code'', ''course_description''],
              [''ACCT1013'', ''This course covers basics.'']],
      ret = Inr [(''ACCT1013'',
                  \<lparr>course_code = ''ACCT1013'',
                   course_name = ''PRINCIPLES OF ACCOUNTING'',
                   unit = Some ''3'', prerequisite = '' None'',
                   description = [''Course Description: This course covers basics.'']\<rparr>)]\<rparr>"
  by code_simp

text \<open>
  The record of Scenario A in the dictionary returned, with or without \<^verbatim>\<open>save_tsv\<close>:
  its prerequisite is not \<^verbatim>\<open>N/A\<close> and its description is not the cleaned text; without
  \<^verbatim>\<open>save_tsv\<close> no file holds them either.
\<close>

theorem scenario_A_counterexample:
  "map (\<lambda>(k, v). (k, prerequisite v, description v))
     (case ret (extract_lines fs_ok False
        [''ACCT1013 PRINCIPLES OF ACCOUNTING'', ''(3 units)'', ''Pre-requisite(s): None'',
         ''Course Description: This course covers basics.'']) of
        Inl e \<Rightarrow> [] | Inr d \<Rightarrow> d)
     = [(''ACCT1013'', '' None'', [''Course Description: This course covers basics.''])]
   \<and> map (\<lambda>(k, v). (k, prerequisite v, description v))
     (case ret (extract_lines fs_ok True
        [''ACCT1013 PRINCIPLES OF ACCOUNTING'', ''(3 units)'', ''Pre-requisite(s): None'',
         ''Course Description: This course covers basics.'']) of
        Inl e \<Rightarrow> [] | Inr d \<Rightarrow> d)
     = [(''ACCT1013'', '' None'', [''Course Description: This course covers basics.''])]
   \<and> '' None'' \<noteq> ''N/A''
   \<and> records_tsv (extract_lines fs_ok False
        [''ACCT1013 PRINCIPLES OF ACCOUNTING'', ''(3 units)'', ''Pre-requisite(s): None'',
         ''Course Description: This course covers basics.'']) = None
   \<and> description_tsv (extract_lines fs_ok False
        [''ACCT1013 PRINCIPLES OF ACCOUNTING'', ''(3 units)'', ''Pre-requisite(s): None'',
         ''Course Description: This course covers basics.'']) = None"
  by code_simp

subsection \<open>Names and segments\<close>

text \<open>
  Claim C10. After the pass, for every sequence of lines: when at least one course
  name line was recorded, there are as many segments as recorded name lines, whether or
  not a description marker occurs; when none was recorded there is exactly one segment,
  holding all the lines; so the two counts differ exactly when no name line was recorded.
\<close>

theorem segments_match_names:
  "(cn_list (segmenter ls) \<noteq> [] \<longrightarrow>
      length (cd_list (segmenter ls)) = length (cn_list (segmenter ls)))
   \<and> (cn_list (segmenter ls) = [] \<longrightarrow> cd_list (segmenter ls) = [ls])
   \<and> ((length (cd_list (segmenter ls)) \<noteq> length (cn_list (segmenter ls)))
        = (cn_list (segmenter ls) = []))"
  using seg_inv_loop [of ls]
  by (auto simp add: segmenter_def seg_inv_def Let_def split: if_splits)

theorem segments_match_names_witness:
  "(cn_list (segmenter [''ACCT1013 A'', ''x'', ''BUSA2003 B'']) \<noteq> []
    \<and> length (cd_list (segmenter [''ACCT1013 A'', ''x'', ''BUSA2003 B'']))
        = length (cn_list (segmenter [''ACCT1013 A'', ''x'', ''BUSA2003 B''])))
   \<and> (cn_list (segmenter [''hello'', ''world'']) = []
    \<and> cd_list (segmenter [''hello'', ''world'']) = [[''hello'', ''world'']])"
proof -
  have h1: "cn_list (segmenter [''ACCT1013 A'', ''x'', ''BUSA2003 B'']) \<noteq> []"
    by code_simp
  have h2: "cn_list (segmenter [''hello'', ''world'']) = []"
    by code_simp
  from h1 h2
    segments_match_names [of "[''ACCT1013 A'', ''x'', ''BUSA2003 B'']"]
    segments_match_names [of "[''hello'', ''world'']"]
  show ?thesis by blast
qed

subsection \<open>Cross-references\<close>

text \<open>
  Claim C2. Let a sequence of lines hold a course header \<open>h\<close> (the first line matching
  the course-name pattern), then lines \<open>mid\<close> none of which is a description marker,
  then a line \<open>x\<close> that matches the course-name pattern as well (a cross-reference).
  When the loop has read \<open>x\<close>, one course-name line is recorded, no segment has been
  closed, and \<open>x\<close> is the last line of the current buffer. Whatever follows, \<open>h\<close> stays
  the first recorded name and \<open>x\<close> lies in the first segment; if no line matching the
  pattern follows, the pass ends with the one name \<open>h\<close> and one segment.
\<close>

theorem cross_reference_no_new_segment:
  assumes h: "is_course_name_line h" and x: "is_course_name_line x"
    and pre: "\<forall>l\<in>set pre. \<not> is_course_name_line l"
    and mid: "\<forall>l\<in>set mid. \<not> is_description_marker l"
  shows "seg_loop seg_init (pre @ h # mid @ [x])
           = \<lparr>cn_list = [h], cd_list = [], new_flag = 1, temp_c_list = pre @ mid @ [x]\<rparr>
       \<and> ((\<forall>l\<in>set post. \<not> is_course_name_line l) \<longrightarrow>
            cn_list (segmenter (pre @ h # mid @ x # post)) = [h]
          \<and> cd_list (segmenter (pre @ h # mid @ x # post)) = [pre @ mid @ x # post])
       \<and> (\<exists>ns rest segs.
            cn_list (segmenter (pre @ h # mid @ x # post)) = h # ns
          \<and> cd_list (segmenter (pre @ h # mid @ x # post)) = (pre @ mid @ x # rest) # segs)"
proof -
  let ?s2 = "\<lparr>cn_list = [h], cd_list = [], new_flag = 1, temp_c_list = pre @ mid @ [x]\<rparr>"
  have st: "seg_loop seg_init (pre @ h # mid @ [x]) = ?s2"
    using assms by (rule seg_loop_cross_reference)
  have split: "pre @ h # mid @ x # post = (pre @ h # mid @ [x]) @ post" by simp
  have run: "seg_loop seg_init (pre @ h # mid @ x # post) = seg_loop ?s2 post"
    unfolding split
    by (simp only: seg_loop_append [of seg_init "pre @ h # mid @ [x]" post] st)
  have quiet: "cn_list (segmenter (pre @ h # mid @ x # post)) = [h]
          \<and> cd_list (segmenter (pre @ h # mid @ x # post)) = [pre @ mid @ x # post]"
    if np: "\<forall>l\<in>set post. \<not> is_course_name_line l"
  proof -
    have "seg_loop ?s2 post = ?s2\<lparr>temp_c_list := temp_c_list ?s2 @ post,
            new_flag := (if list_ex is_description_marker post then 0 else new_flag ?s2)\<rparr>"
      using np by (rule seg_loop_no_names)
    then show ?thesis by (simp add: segmenter_def run Let_def)
  qed
  have "cn_list ?s2 \<noteq> []" by simp
  from seg_loop_extends [OF this, of post] obtain r segs ns where
    e: "cd_list (seg_loop ?s2 post) @ [temp_c_list (seg_loop ?s2 post)]
          = cd_list ?s2 @ (temp_c_list ?s2 @ r) # segs"
       "cn_list (seg_loop ?s2 post) = cn_list ?s2 @ ns"
    by blast
  have "cn_list (segmenter (pre @ h # mid @ x # post)) = h # ns
      \<and> cd_list (segmenter (pre @ h # mid @ x # post)) = (pre @ mid @ x # r) # segs"
    using e by (simp add: segmenter_def run Let_def)
  then have any: "\<exists>ns rest segs.
            cn_list (segmenter (pre @ h # mid @ x # post)) = h # ns
          \<and> cd_list (segmenter (pre @ h # mid @ x # post)) = (pre @ mid @ x # rest) # segs"
    by blast
  from st quiet any show ?thesis by blast
qed


theorem cross_reference_no_new_segment_witness:
  "is_course_name_line ''ACCT1013 A'' \<and> is_course_name_line ''BUSA2003 B''
   \<and> \<not> is_course_name_line ''Catalogue''
   \<and> \<not> is_description_marker ''(3 units)''
   \<and> \<not> is_course_name_line ''Course Description: d''
   \<and> seg_loop seg_init ([''Catalogue''] @ ''ACCT1013 A'' # [''(3 units)''] @ [''BUSA2003 B''])
       = \<lparr>cn_list = [''ACCT1013 A''], cd_list = [], new_flag = 1,
          temp_c_list = [''Catalogue''] @ [''(3 units)''] @ [''BUSA2003 B'']\<rparr>
   \<and> cn_list (segmenter ([''Catalogue''] @ ''ACCT1013 A'' # [''(3 units)'']
                           @ ''BUSA2003 B'' # [''Course Description: d'']))
       = [''ACCT1013 A'']
   \<and> cd_list (segmenter ([''Catalogue''] @ ''ACCT1013 A'' # [''(3 units)'']
                           @ ''BUSA2003 B'' # [''Course Description: d'']))
       = [[''Catalogue''] @ [''(3 units)''] @ ''BUSA2003 B'' # [''Course Description: d'']]"
proof -
  have h: "is_course_name_line ''ACCT1013 A''" by code_simp
  have x: "is_course_name_line ''BUSA2003 B''" by code_simp
  have p: "\<not> is_course_name_line ''Catalogue''" by code_simp
  have m: "\<not> is_description_marker ''(3 units)''" by code_simp
  have q: "\<not> is_course_name_line ''Course Description: d''" by code_simp
  from p have pre: "\<forall>l\<in>set [''Catalogue'']. \<not> is_course_name_line l" by simp
  from m have mid: "\<forall>l\<in>set [''(3 units)'']. \<not> is_description_marker l" by simp
  from q have post: "\<forall>l\<in>set [''Course Description: d'']. \<not> is_course_name_line l"
    by simp
  from cross_reference_no_new_segment [OF h x pre mid, of "[''Course Description: d'']"]
    h x p m q post
  show ?thesis by blast
qed

subsection \<open>The flag of the segmenter\<close>

text \<open>
  Claim C4, as the code has it. The flag \<^verbatim>\<open>new_flag\<close> is 0 before the loop. A line
  matching the course-name pattern that is read while the flag is 1 is appended to the
  current buffer and starts no course; read while the flag is not 1, it is recorded as
  the next course name and sets the flag to 1; a description marker sets the flag back
  to 0. So a first line that matches the course-name pattern is always recorded as a
  course header.
\<close>


theorem first_header_recorded:
  "new_flag seg_init = 0
   \<and> (is_course_name_line l \<and> new_flag s = 1 \<longrightarrow>
        seg_step s l = s\<lparr>temp_c_list := temp_c_list s @ [l]\<rparr>)
   \<and> (is_course_name_line l \<and> new_flag s \<noteq> 1 \<longrightarrow>
        cn_list (seg_step s l) = cn_list s @ [l] \<and> new_flag (seg_step s l) = 1)
   \<and> (\<not> is_course_name_line l \<and> is_description_marker l \<longrightarrow>
        new_flag (seg_step s l) = 0)
   \<and> (is_course_name_line l \<longrightarrow> (\<exists>ns. cn_list (segmenter (l # rest)) = l # ns))"
proof -
  have a: "new_flag seg_init = 0" by (simp add: seg_init_def)
  have b: "seg_step s l = s\<lparr>temp_c_list := temp_c_list s @ [l]\<rparr>"
    if "is_course_name_line l \<and> new_flag s = 1"
    using that by (simp add: seg_step_name_open)
  have c: "cn_list (seg_step s l) = cn_list s @ [l] \<and> new_flag (seg_step s l) = 1"
    if "is_course_name_line l \<and> new_flag s \<noteq> 1"
    using that by (simp add: seg_step_name_closed)
  have d: "new_flag (seg_step s l) = 0"
    if "\<not> is_course_name_line l \<and> is_description_marker l"
    using that by (simp add: seg_step_marker)
  have e: "\<exists>ns. cn_list (segmenter (l # rest)) = l # ns" if n: "is_course_name_line l"
  proof -
    let ?s1 = "\<lparr>cn_list = [l], cd_list = [], new_flag = 1, temp_c_list = []\<rparr>"
    have "seg_loop seg_init ([] @ [l]) = ?s1"
      using n by (intro seg_loop_first_header) simp_all
    then have s1: "seg_step seg_init l = ?s1" by (simp add: seg_loop_Cons seg_loop_Nil)
    have "cn_list ?s1 \<noteq> []" by simp
    from seg_loop_extends [OF this, of rest] obtain ns where
      "cn_list (seg_loop ?s1 rest) = cn_list ?s1 @ ns" by blast
    then have "cn_list (segmenter (l # rest)) = l # ns"
      by (simp add: segmenter_def seg_loop_Cons s1 Let_def)
    then show ?thesis by blast
  qed
  from a b c d e show ?thesis by blast
qed

theorem first_header_recorded_witness:
  "is_course_name_line ''ACCT1013 A''
   \<and> new_flag \<lparr>cn_list = [''BUSA2003 B''], cd_list = [], new_flag = 1, temp_c_list = []\<rparr> = 1
   \<and> seg_step \<lparr>cn_list = [''BUSA2003 B''], cd_list = [], new_flag = 1, temp_c_list = []\<rparr>
        ''ACCT1013 A''
       = \<lparr>cn_list = [''BUSA2003 B''], cd_list = [], new_flag = 1,
          temp_c_list = [''ACCT1013 A'']\<rparr>
   \<and> new_flag seg_init \<noteq> 1
   \<and> cn_list (seg_step seg_init ''ACCT1013 A'') = cn_list seg_init @ [''ACCT1013 A'']
   \<and> new_flag (seg_step seg_init ''ACCT1013 A'') = 1
   \<and> \<not> is_course_name_line ''Course Description: d''
   \<and> is_description_marker ''Course Description: d''
   \<and> new_flag (seg_step \<lparr>cn_list = [''BUSA2003 B''], cd_list = [], new_flag = 1,
                           temp_c_list = []\<rparr> ''Course Description: d'') = 0
   \<and> cn_list (segmenter (''ACCT1013 A'' # [''(3 units)''])) = [''ACCT1013 A'']"
proof -
  let ?s = "\<lparr>cn_list = [''BUSA2003 B''], cd_list = [], new_flag = 1, temp_c_list = []\<rparr>"
  have n: "is_course_name_line ''ACCT1013 A''" by code_simp
  have f1: "new_flag ?s = 1" by simp
  have f0: "new_flag seg_init \<noteq> 1" by (simp add: seg_init_def)
  have m: "\<not> is_course_name_line ''Course Description: d''" by code_simp
  have m': "is_description_marker ''Course Description: d''" by code_simp
  have v: "cn_list (segmenter (''ACCT1013 A'' # [''(3 units)''])) = [''ACCT1013 A'']"
    by code_simp
  from n f1 f0 m m' v
    first_header_recorded [of "''ACCT1013 A''" ?s "[''(3 units)'']"]
    first_header_recorded [of "''ACCT1013 A''" seg_init "[''(3 units)'']"]
    first_header_recorded [of "''Course Description: d''" ?s "[]"]
  show ?thesis by simp
qed

text \<open>
  A single line matching the course-name pattern: the flag is 0 when it is read, the line
  is recorded as a course name and is not appended to the buffer.
\<close>

theorem first_line_counterexample:
  "is_course_name_line ''ACCT1013 PRINCIPLES OF ACCOUNTING''
   \<and> new_flag seg_init = 0
   \<and> cn_list (segmenter [''ACCT1013 PRINCIPLES OF ACCOUNTING''])
       = [''ACCT1013 PRINCIPLES OF ACCOUNTING'']
   \<and> temp_c_list (seg_step seg_init ''ACCT1013 PRINCIPLES OF ACCOUNTING'') = []"
  by code_simp


subsection \<open>The code of a course-name line\<close>

text \<open>
  Claim C5. For every line that matches the anchored course-name pattern, the unanchored
  search of \<^verbatim>\<open>get_course_code\<close> returns a code, and this code is the first group of
  the anchored match.
\<close>

theorem code_of_name_line:
  "COURSE_NAME_match line = Some (code, title) \<Longrightarrow> get_course_code line = Some code"
  unfolding get_course_code_def by (simp add: name_line_code)

theorem code_of_name_line_witness:
  "COURSE_NAME_match ''ACCT1013 PRINCIPLES OF ACCOUNTING''
     = Some (''ACCT1013'', ''PRINCIPLES OF ACCOUNTING'')
   \<and> get_course_code ''ACCT1013 PRINCIPLES OF ACCOUNTING'' = Some ''ACCT1013''"
proof -
  have h: "COURSE_NAME_match ''ACCT1013 PRINCIPLES OF ACCOUNTING''
     = Some (''ACCT1013'', ''PRINCIPLES OF ACCOUNTING'')" by code_simp
  from code_of_name_line [OF h] h show ?thesis by simp
qed

subsection \<open>Genuine headers\<close>

text \<open>
  Claim C3, as the code has it. The genuine headers of a document are the lines matching
  the course-name pattern such that every earlier line matching it is followed by a
  description marker first. For every document with \<open>N\<close> genuine headers the segmenter
  records exactly these \<open>N\<close> course-name lines; it produces \<open>N\<close> segments when \<open>N\<close> is
  at least 1 and one segment when \<open>N\<close> is 0. The two counts are reported in a message of
  level \<^verbatim>\<open>INFO\<close>, whether they differ or not, and no warning is logged.
\<close>

theorem genuine_header_counts:
  "cn_list (segmenter ls) = genuine_headers ls
   \<and> length (cd_list (segmenter ls))
       = (if genuine_headers ls = [] then 1 else length (genuine_headers ls))
   \<and> (\<not> raw_fails fs \<longrightarrow>
        (INFO, FoundNames (length (cn_list (segmenter ls))) (length (cd_list (segmenter ls))))
          \<in> set (log (extract_lines fs save_tsv ls)))
   \<and> WARNING \<notin> fst ` set (log (extract_lines fs save_tsv ls))"
proof -
  have n: "cn_list (segmenter ls) = genuine_headers ls" by (rule segmenter_names)
  have c: "length (cd_list (segmenter ls))
       = (if genuine_headers ls = [] then 1 else length (genuine_headers ls))"
    using seg_inv_loop [of ls] n
    by (auto simp add: segmenter_def seg_inv_def Let_def split: if_splits)
  from n c extract_lines_log [of fs save_tsv ls] show ?thesis by blast
qed

theorem genuine_header_counts_witness:
  "genuine_headers [''ACCT1013 A'', ''Course Description: d'', ''BUSA2003 B'', ''Description: e'']
     = [''ACCT1013 A'', ''BUSA2003 B'']
   \<and> cn_list (segmenter [''ACCT1013 A'', ''Course Description: d'', ''BUSA2003 B'',
                          ''Description: e''])
       = [''ACCT1013 A'', ''BUSA2003 B'']
   \<and> length (cd_list (segmenter [''ACCT1013 A'', ''Course Description: d'', ''BUSA2003 B'',
                                  ''Description: e''])) = 2
   \<and> \<not> raw_fails fs_ok
   \<and> (INFO, FoundNames 2 2)
       \<in> set (log (extract_lines fs_ok False
                [''ACCT1013 A'', ''Course Description: d'', ''BUSA2003 B'', ''Description: e'']))"
proof -
  let ?L = "[''ACCT1013 A'', ''Course Description: d'', ''BUSA2003 B'', ''Description: e'']"
  have g: "genuine_headers ?L = [''ACCT1013 A'', ''BUSA2003 B'']"
    by code_simp
  note t = genuine_header_counts [of ?L fs_ok False]
  from t g have n: "cn_list (segmenter ?L) = [''ACCT1013 A'', ''BUSA2003 B'']" by simp
  from t g have c: "length (cd_list (segmenter ?L)) = 2" by simp
  have f: "\<not> raw_fails fs_ok" by (simp add: fs_ok_def)
  from t f have m: "(INFO, FoundNames (length (cn_list (segmenter ?L)))
                    (length (cd_list (segmenter ?L))))
                  \<in> set (log (extract_lines fs_ok False ?L))"
    by blast
  have n2: "length (cn_list (segmenter ?L)) = 2" by (simp add: n)
  from m have "(INFO, FoundNames 2 2) \<in> set (log (extract_lines fs_ok False ?L))"
    by (simp only: n2 c)
  with g n c f show ?thesis by blast
qed

text \<open>
  The empty document has no genuine header, and yet one segment: the counts 0 and 1
  differ, and the log holds messages of level \<^verbatim>\<open>INFO\<close> only, no warning.
\<close>

theorem no_header_counterexample:
  "genuine_headers [] = []
   \<and> length (cn_list (segmenter [])) = 0
   \<and> length (cd_list (segmenter [])) = 1
   \<and> log (extract_lines fs_ok False [])
       = [(INFO, LoadingPDF), (INFO, LinesOfText 0), (INFO, DoneWritingRaw),
          (INFO, FoundCodes 0), (INFO, FoundNames 0 1)]"
  by code_simp

subsection \<open>The course name\<close>




subsection \<open>The prerequisite written to the records file\<close>

text \<open>
  Claim C7, at a prerequisite line that holds only the marker and a space, followed by
  the description marker. The prerequisite extracted is one space; trimmed it is empty.
  The value written to the records file is the empty string, not \<^verbatim>\<open>N/A\<close>: the test
  for emptiness is made before the trimming. A segment with no prerequisite line at all
  does give \<^verbatim>\<open>N/A\<close>.
\<close>

theorem blank_prerequisite_not_normalised:
  "get_course_pre [''Pre-requisite(s): '', ''Course Description: d''] = '' ''
   \<and> strip (get_course_pre [''Pre-requisite(s): '', ''Course Description: d'']) = []
   \<and> tsv_prerequisite (get_course_pre [''Pre-requisite(s): '', ''Course Description: d'']) = []
   \<and> tsv_prerequisite (get_course_pre [''Course Description: d'']) = ''N/A''
   \<and> records_tsv (extract_lines fs_ok True
        [''ACCT1013 X'', ''Pre-requisite(s): '', ''Course Description: d''])
       = Some [[''course_code'', ''course_name'', ''prerequisite'', ''unit''],
               [''ACCT1013'', ''X'', [], []]]"
  by code_simp

subsection \<open>The description written to the description file\<close>

text \<open>
  Claim C8, at a description line with a second colon. The text is split at every colon
  and the parts after the first are joined with the empty string, so the colon after
  \<^verbatim>\<open>Topics\<close> is deleted from the description written to the file.
\<close>

theorem later_colons_deleted:
  "get_course_desc [''Course Description: Topics: a, b''] = [''Course Description: Topics: a, b'']
   \<and> tsv_description (get_course_desc [''Course Description: Topics: a, b'']) = ''Topics a, b''
   \<and> description_tsv (extract_lines fs_ok True
        [''ACCT1013 X'', ''Course Description: Topics: a, b''])
       = Some [[''course_code'', ''course_description''],
               [''ACCT1013'', ''Topics a, b'']]"
  by code_simp

subsection \<open>The empty input\<close>

text \<open>
  Claim C9, as the code has it. For the empty input, when no write fails, the function
  returns the empty dictionary. The log holds the ordinary messages, all of level
  \<^verbatim>\<open>INFO\<close>: the number of lines (0), the counts (no code, no course name, one
  segment) and, when the files are written, the messages of the writes; each of the two
  files holds its header row only. No status marks the input as empty.
\<close>

theorem empty_input_result:
  "extract_lines fs_ok False []
     = \<lparr>log = [(INFO, LoadingPDF), (INFO, LinesOfText 0), (INFO, DoneWritingRaw),
               (INFO, FoundCodes 0), (INFO, FoundNames 0 1)],
        raw_lines_txt = Some [],
        records_tsv = None, description_tsv = None, ret = Inr []\<rparr>
   \<and> extract_lines fs_ok True []
     = \<lparr>log = [(INFO, LoadingPDF), (INFO, LinesOfText 0), (INFO, DoneWritingRaw),
               (INFO, FoundCodes 0), (INFO, FoundNames 0 1), (INFO, SavingRecords),
               (INFO, SavingDescriptions), (INFO, DoneExiting)],
        raw_lines_txt = Some [],
        records_tsv = Some [[''course_code'', ''course_name'', ''prerequisite'', ''unit'']],
        description_tsv = Some [[''course_code'', ''course_description'']],
        ret = Inr []\<rparr>"
  by code_simp

text \<open>
  What the function returns and writes for the empty input is what it returns and writes
  for a document of one line that is no course header, and the messages are the same but
  for the number of lines: nothing else tells the empty input apart.
\<close>

theorem empty_input_counterexample:
  "ret (extract_lines fs_ok True []) = Inr []
   \<and> ret (extract_lines fs_ok True [''hello'']) = Inr []
   \<and> records_tsv (extract_lines fs_ok True []) = records_tsv (extract_lines fs_ok True [''hello''])
   \<and> description_tsv (extract_lines fs_ok True [])
       = description_tsv (extract_lines fs_ok True [''hello''])
   \<and> log (extract_lines fs_ok True [])
       = [(INFO, LoadingPDF), (INFO, LinesOfText 0), (INFO, DoneWritingRaw),
          (INFO, FoundCodes 0), (INFO, FoundNames 0 1), (INFO, SavingRecords),
          (INFO, SavingDescriptions), (INFO, DoneExiting)]
   \<and> log (extract_lines fs_ok True [''hello''])
       = [(INFO, LoadingPDF), (INFO, LinesOfText 1), (INFO, DoneWritingRaw),
          (INFO, FoundCodes 0), (INFO, FoundNames 0 1), (INFO, SavingRecords),
          (INFO, SavingDescriptions), (INFO, DoneExiting)]"
  by code_simp

end
